theory Spec2Isabelle
  imports Complex_Main "HOL-Library.Sublist"
begin

section \<open>JavaScript strings and values\<close>

text \<open>
  A JavaScript string is a sequence of UTF-16 code units. The model uses \<^typ>\<open>string\<close>,
  whose characters are the code units below 256 (ASCII and Latin-1): the degree sign
  of \<open>getWeather\<close> is the single unit \<open>0xB0\<close>, as it is in the running program.
  The string operations below are the ECMAScript ones restricted to these units.
\<close>

definition toLowerCase_unit :: "char \<Rightarrow> char" where
  "toLowerCase_unit c =
     (let n = (of_char c :: nat)
      in if (65 \<le> n \<and> n \<le> 90) \<or> (192 \<le> n \<and> n \<le> 214) \<or> (216 \<le> n \<and> n \<le> 222)
         then char_of (n + 32) else c)"

definition toLowerCase :: "string \<Rightarrow> string" where
  "toLowerCase s = map toLowerCase_unit s"

fun includes_str :: "string \<Rightarrow> string \<Rightarrow> bool" where
  "includes_str [] t = (t = [])"
| "includes_str (c # s) t = (prefix t (c # s) \<or> includes_str s t)"

definition is_white_space :: "char \<Rightarrow> bool" where
  "is_white_space c = ((of_char c :: nat) \<in> {9, 10, 11, 12, 13, 32, 160})"

definition trim :: "string \<Rightarrow> string" where
  "trim s = rev (dropWhile is_white_space (rev (dropWhile is_white_space s)))"

definition uri_unreserved :: "char \<Rightarrow> bool" where
  "uri_unreserved c =
     (let n = (of_char c :: nat)
      in (65 \<le> n \<and> n \<le> 90) \<or> (97 \<le> n \<and> n \<le> 122) \<or> (48 \<le> n \<and> n \<le> 57)
         \<or> c \<in> set ''-_.!~*()'' \<or> n = 39)"

definition percent :: "nat \<Rightarrow> string" where
  "percent b = [CHR ''%'', ''0123456789ABCDEF'' ! (b div 16), ''0123456789ABCDEF'' ! (b mod 16)]"

definition encode_unit :: "char \<Rightarrow> string" where
  "encode_unit c =
     (let n = (of_char c :: nat)
      in if uri_unreserved c then [c]
         else if n < 128 then percent n
         else percent (192 + n div 64) @ percent (128 + n mod 64))"

definition encodeURIComponent :: "string \<Rightarrow> string" where
  "encodeURIComponent s = concat (map encode_unit s)"

text \<open>
  Values as the tools receive and return them. A number is modelled when it is an
  integer (below \<open>10^21\<close> in magnitude), where a template literal prints its decimal
  numeral; other doubles are outside the model.
\<close>

datatype jsval =
    Undefined
  | Null
  | Bool bool
  | Num int
  | Str string
  | Arr "jsval list"
  | Obj "(string \<times> jsval) list"

fun show_nat :: "nat \<Rightarrow> string" where
  "show_nat n =
     (if n < 10 then [''0123456789'' ! n]
      else show_nat (n div 10) @ [''0123456789'' ! (n mod 10)])"

declare show_nat.simps [simp del]

definition show_int :: "int \<Rightarrow> string" where
  "show_int i = (if i < 0 then CHR ''-'' # show_nat (nat (- i)) else show_nat (nat i))"

fun join :: "string \<Rightarrow> string list \<Rightarrow> string" where
  "join sep [] = []"
| "join sep [s] = s"
| "join sep (s # t # ss) = s @ sep @ join sep (t # ss)"

text \<open>The conversion a template literal \<open>${v}\<close> applies to \<open>v\<close>.\<close>

fun toString :: "jsval \<Rightarrow> string" where
  "toString Undefined = ''undefined''"
| "toString Null = ''null''"
| "toString (Bool b) = (if b then ''true'' else ''false'')"
| "toString (Num n) = show_int n"
| "toString (Str s) = s"
| "toString (Arr xs) =
     join '','' (map (\<lambda>x. if x = Undefined \<or> x = Null then [] else toString x) xs)"
| "toString (Obj kvs) = ''[object Object]''"

text \<open>
  Everything thrown in this program is an \<open>Error\<close> object (or a subclass raised by
  the engine); only its \<open>message\<close> is ever read.
\<close>

datatype exn = Error (message: string) | TypeError (message: string) | SyntaxError (message: string)

text \<open>
  Reading a property \<open>v.k\<close>: it throws on \<open>undefined\<close> and \<open>null\<close>. The data keys
  this program reads are not built-in properties of a string, number, boolean or
  array, where they read as \<open>undefined\<close>; for a method (\<open>map\<close>, \<open>toLocaleString\<close>,
  \<open>toLowerCase\<close>) only the exception is taken from here. The wording of the engine's
  own \<open>TypeError\<close> is V8's.
\<close>

fun get_prop :: "jsval \<Rightarrow> string \<Rightarrow> exn + jsval" where
  "get_prop Undefined k =
     Inl (TypeError (''Cannot read properties of undefined (reading '' @ [CHR 0x27] @ k @ [CHR 0x27] @ '')''))"
| "get_prop Null k =
     Inl (TypeError (''Cannot read properties of null (reading '' @ [CHR 0x27] @ k @ [CHR 0x27] @ '')''))"
| "get_prop (Obj kvs) k = Inr (case map_of kvs k of None \<Rightarrow> Undefined | Some v \<Rightarrow> v)"
| "get_prop v k = Inr Undefined"

section \<open>The environment\<close>

text \<open>
  What the program reads from outside: the hosted model, \<open>Math.random\<close>, the clock
  and the network. Each is an oracle indexed by the number of consultations made so
  far, so that the same question may get different answers at different times.
\<close>

record call =
  call_name :: string
  call_args :: "(string \<times> jsval) list"

datatype part =
    Text string
  | FunctionCall call
  | FunctionResponse string jsval

record content =
  role :: string
  parts :: "part list"

text \<open>
  A response of \<open>generateContent\<close>: the fields the loop reads. \<open>functionCalls\<close> is
  \<open>None\<close> where the SDK yields \<open>undefined\<close>; \<open>candidate_content\<close> is
  \<open>candidates[0].content\<close>; \<open>response_text\<close> (the getter \<open>text\<close>) is \<open>None\<close> where the SDK yields \<open>undefined\<close>.
\<close>

record response =
  functionCalls :: "call list option"
  candidate_content :: content
  response_text :: "string option"

record http_response =
  ok :: bool
  status :: int
  json :: "exn + jsval"

record env =
  generateContent :: "nat \<Rightarrow> content list \<Rightarrow> exn + response"
  random :: "nat \<Rightarrow> real"
  toLocaleTimeString :: "nat \<Rightarrow> string"
  fetch :: "nat \<Rightarrow> string \<Rightarrow> exn + http_response"

datatype message_type = User | Model | Tool_call | Tool_result

datatype payload =
    PText "string option"
  | PCall string "(string \<times> jsval) list"
  | PResult string jsval

text \<open>
  The state the program changes: the messages shown (the children of \<open>messagesEl\<close>,
  each kept as its type and payload, the markup left out), the loading flag set by
  \<open>setLoading\<close>, and the \<open>contents\<close> argument of every \<open>generateContent\<close> call made,
  oldest first. Console output is not kept.
\<close>

record world =
  clock :: nat
  messages :: "(message_type \<times> payload) list"
  loading :: bool
  requests :: "content list list"

definition tick :: "world \<Rightarrow> world" where
  "tick w = w\<lparr>clock := Suc (clock w)\<rparr>"

section \<open>Tool declarations\<close>

datatype param_type = STRING | NUMBER

record param =
  param_name :: string
  param_type :: param_type
  enum :: "string list option"

record tool_decl =
  decl_name :: string
  properties :: "param list"
  required :: "string list"

text \<open>The descriptions of the declarations are left out.\<close>

definition functionDeclarations :: "tool_decl list" where
  "functionDeclarations =
    [\<lparr>decl_name = ''getWeather'',
      properties = [\<lparr>param_name = ''location'', param_type = STRING, enum = None\<rparr>,
                    \<lparr>param_name = ''unit'', param_type = STRING,
                     enum = Some [''celsius'', ''fahrenheit'']\<rparr>],
      required = [''location'']\<rparr>,
     \<lparr>decl_name = ''getCurrentTime'',
      properties = [\<lparr>param_name = ''location'', param_type = STRING, enum = None\<rparr>],
      required = [''location'']\<rparr>,
     \<lparr>decl_name = ''controlFan'',
      properties = [\<lparr>param_name = ''speed'', param_type = NUMBER, enum = None\<rparr>,
                    \<lparr>param_name = ''mode'', param_type = STRING,
                     enum = Some [''low'', ''medium'', ''high'']\<rparr>],
      required = [''speed'', ''mode'']\<rparr>,
     \<lparr>decl_name = ''search_github_repo'',
      properties = [\<lparr>param_name = ''search_term'', param_type = STRING, enum = None\<rparr>],
      required = [''search_term'']\<rparr>,
     \<lparr>decl_name = ''execute_code'',
      properties = [\<lparr>param_name = ''code_block'', param_type = STRING, enum = None\<rparr>],
      required = [''code_block'']\<rparr>,
     \<lparr>decl_name = ''retrieve_knowledge'',
      properties = [\<lparr>param_name = ''query'', param_type = STRING, enum = None\<rparr>],
      required = [''query'']\<rparr>,
     \<lparr>decl_name = ''perform_code_critique'',
      properties = [\<lparr>param_name = ''code_block'', param_type = STRING, enum = None\<rparr>,
                    \<lparr>param_name = ''execution_logs'', param_type = STRING, enum = None\<rparr>],
      required = [''code_block'', ''execution_logs'']\<rparr>]"

section \<open>Tool implementations\<close>

text \<open>Destructuring a parameter object: an absent key reads as \<open>undefined\<close>.\<close>

definition arg :: "(string \<times> jsval) list \<Rightarrow> string \<Rightarrow> jsval" where
  "arg args k = (case map_of args k of None \<Rightarrow> Undefined | Some v \<Rightarrow> v)"

definition bind_exn :: "exn + 'a \<Rightarrow> ('a \<Rightarrow> exn + 'b) \<Rightarrow> exn + 'b" where
  "bind_exn m f = (case m of Inl e \<Rightarrow> Inl e | Inr x \<Rightarrow> f x)"

fun map_exn :: "('a \<Rightarrow> exn + 'b) \<Rightarrow> 'a list \<Rightarrow> exn + 'b list" where
  "map_exn f [] = Inr []"
| "map_exn f (x # xs) =
     (case f x of
        Inl e \<Rightarrow> Inl e
      | Inr y \<Rightarrow> (case map_exn f xs of Inl e \<Rightarrow> Inl e | Inr ys \<Rightarrow> Inr (y # ys)))"

text \<open>\<open>Math.random()\<close> is taken as a real number; the theorems assume it in \<open>[0, 1)\<close>.\<close>

definition getWeather :: "env \<Rightarrow> world \<Rightarrow> (string \<times> jsval) list \<Rightarrow> world \<times> jsval" where
  "getWeather env w args =
     (let location = arg args ''location'';
          unit = (case arg args ''unit'' of Undefined \<Rightarrow> Str ''fahrenheit'' | u \<Rightarrow> u);
          temp = \<lfloor>random env (clock w) * 40\<rfloor> + 10
      in (tick w,
          Obj [(''temperature'',
                Str (show_int temp @ [CHR 0xB0, CHR '' '']
                     @ (if unit = Str ''celsius'' then ''C'' else ''F''))),
               (''location'', location)]))"

definition getCurrentTime :: "env \<Rightarrow> world \<Rightarrow> (string \<times> jsval) list \<Rightarrow> world \<times> jsval" where
  "getCurrentTime env w args =
     (let location = arg args ''location''
      in (tick w,
          Obj [(''time'', Str (toLocaleTimeString env (clock w))), (''location'', location)]))"

definition controlFan :: "(string \<times> jsval) list \<Rightarrow> jsval" where
  "controlFan args =
     (let speed = arg args ''speed''; mode = arg args ''mode''
      in Obj [(''status'', Str ''success''),
              (''message'',
               Str (''Fan set to '' @ toString speed @ ''% speed in '' @ toString mode
                    @ '' mode.''))])"

definition repo_entry :: "jsval \<Rightarrow> exn + jsval" where
  "repo_entry repo =
     bind_exn (get_prop repo ''full_name'') (\<lambda>full_name.
     bind_exn (get_prop repo ''html_url'') (\<lambda>html_url.
     bind_exn (get_prop repo ''description'') (\<lambda>description.
     bind_exn (get_prop repo ''stargazers_count'') (\<lambda>stargazers_count.
       Inr (Obj [(''name'', full_name), (''url'', html_url),
                 (''description'', description), (''stars'', stargazers_count)])))))"

text \<open>\<open>xs.map(f)\<close> on a value that may not be an array.\<close>

definition array_map :: "string \<Rightarrow> (jsval \<Rightarrow> exn + 'b) \<Rightarrow> jsval \<Rightarrow> exn + 'b list" where
  "array_map what f v =
     (case v of
        Arr xs \<Rightarrow> map_exn f xs
      | Undefined \<Rightarrow> bind_exn (get_prop v ''map'') (\<lambda>_. Inr [])
      | Null \<Rightarrow> bind_exn (get_prop v ''map'') (\<lambda>_. Inr [])
      | _ \<Rightarrow> Inl (TypeError (what @ ''.map is not a function'')))"

definition search_success :: "jsval \<Rightarrow> exn + jsval" where
  "search_success data =
     bind_exn (get_prop data ''items'') (\<lambda>items.
     bind_exn (array_map ''data.items'' repo_entry items) (\<lambda>results.
     bind_exn (get_prop data ''total_count'') (\<lambda>total_count.
       Inr (Obj [(''status'', Str ''success''),
                 (''results_count'', total_count),
                 (''top_results'', Arr results),
                 (''message'',
                  Str (''Found '' @ toString total_count
                       @ '' repositories. Returning top 5 sorted by stars.''))]))))"

text \<open>The body of the \<open>try\<close> block of \<open>search_github_repo\<close>.\<close>

definition search_try :: "env \<Rightarrow> world \<Rightarrow> string \<Rightarrow> world \<times> (exn + jsval)" where
  "search_try env w url =
     (case fetch env (clock w) url of
        Inl e \<Rightarrow> (tick w, Inl e)
      | Inr response \<Rightarrow>
          if \<not> ok response then
            (tick w,
             bind_exn (json response) (\<lambda>errorData.
             bind_exn (get_prop errorData ''message'') (\<lambda>m.
               Inl (Error (''GitHub API error! status: '' @ show_int (status response)
                           @ '', message: '' @ toString m)))))
          else (tick w, bind_exn (json response) search_success))"

definition GITHUB_API_URL :: string where
  "GITHUB_API_URL = ''https://api.github.com/search/repositories''"

definition search_github_repo :: "env \<Rightarrow> world \<Rightarrow> (string \<times> jsval) list \<Rightarrow> world \<times> jsval" where
  "search_github_repo env w args =
     (let search_term = arg args ''search_term'';
          query = encodeURIComponent (toString search_term @ '' in:name,description,readme'');
          url = GITHUB_API_URL @ ''?q='' @ query @ ''&sort=stars&order=desc&per_page=5''
      in case search_try env w url of
           (w', Inr v) \<Rightarrow> (w', v)
         | (w', Inl error) \<Rightarrow>
             (w', Obj [(''status'', Str ''failure''),
                       (''error'', Str (''GitHub API request failed: '' @ message error)),
                       (''message'', Str ''Could not fetch repository data from GitHub.'')]))"

definition execute_code :: "(string \<times> jsval) list \<Rightarrow> jsval" where
  "execute_code args =
     (let code_block = arg args ''code_block''
      in Obj [(''status'', Str ''success''),
              (''output'',
               Str (''[Mock Execution] Code block received:'' @ [CHR 0x0A] @ ''---'' @ [CHR 0x0A]
                    @ toString code_block @ [CHR 0x0A] @ ''---'')),
              (''error'', Null),
              (''message'', Str ''Code executed in a mocked secure environment.'')])"

definition retrieve_knowledge :: "(string \<times> jsval) list \<Rightarrow> jsval" where
  "retrieve_knowledge args =
     (let query = arg args ''query''
      in Obj [(''knowledge'',
               Str (''Mock knowledge retrieved for query: '' @ [CHR 0x27] @ toString query
                    @ [CHR 0x27] @ ''. SICA agents should be modular.''))])"

definition lesson_learned :: string where
  "lesson_learned =
     ''Lesson Learned: The code failed. It'' @ [CHR 0x27] @ ''s crucial to implement robust error handling, perhaps with try-catch blocks, to manage unexpected failures gracefully.''"

definition good_start :: string where
  "good_start =
     ''This is a good start, but consider adding more comments and edge case handling for production environments.''"

text \<open>
  \<open>execution_logs.toLowerCase()\<close> is a method call: it throws on \<open>undefined\<close> and
  \<open>null\<close>, and on a value that is not a string (which has no such method).
\<close>

definition perform_code_critique :: "(string \<times> jsval) list \<Rightarrow> exn + jsval" where
  "perform_code_critique args =
     (let code_block = arg args ''code_block'';
          execution_logs = arg args ''execution_logs'';
          critique = ''Critique for code:'' @ [CHR 0x0A] @ ''---'' @ [CHR 0x0A]
                     @ toString code_block @ [CHR 0x0A] @ ''---'' @ [CHR 0x0A]
                     @ ''Based on logs:'' @ [CHR 0x0A] @ ''---'' @ [CHR 0x0A]
                     @ toString execution_logs @ [CHR 0x0A] @ ''---'' @ [CHR 0x0A]
      in case execution_logs of
           Str logs \<Rightarrow>
             Inr (Obj [(''critique'',
                        Str (critique @ (if includes_str (toLowerCase logs) ''error''
                                         then lesson_learned else good_start)))])
         | Undefined \<Rightarrow> bind_exn (get_prop execution_logs ''toLowerCase'') (\<lambda>_. Inr Undefined)
         | Null \<Rightarrow> bind_exn (get_prop execution_logs ''toLowerCase'') (\<lambda>_. Inr Undefined)
         | _ \<Rightarrow> Inl (TypeError ''execution_logs.toLowerCase is not a function''))"

section \<open>Tool dispatcher\<close>

definition callTool ::
  "env \<Rightarrow> world \<Rightarrow> string \<Rightarrow> (string \<times> jsval) list \<Rightarrow> world \<times> (exn + jsval)" where
  "callTool env w functionName args =
     (if functionName = ''getWeather'' then map_prod id Inr (getWeather env w args)
      else if functionName = ''getCurrentTime'' then map_prod id Inr (getCurrentTime env w args)
      else if functionName = ''controlFan'' then (w, Inr (controlFan args))
      else if functionName = ''search_github_repo'' then
        map_prod id Inr (search_github_repo env w args)
      else if functionName = ''execute_code'' then (w, Inr (execute_code args))
      else if functionName = ''retrieve_knowledge'' then (w, Inr (retrieve_knowledge args))
      else if functionName = ''perform_code_critique'' then (w, perform_code_critique args)
      else (w, Inl (Error (''Unknown function: '' @ functionName))))"

section \<open>Presentation\<close>

text \<open>
  Building the markup of a message can throw: the renderer of a successful
  repository search calls \<open>repos.map\<close> and \<open>repo.stars.toLocaleString()\<close>. The
  markup itself is left out; what is kept is whether building it throws.
\<close>

definition render_repo :: "jsval \<Rightarrow> exn + unit" where
  "render_repo repo =
     bind_exn (get_prop repo ''url'') (\<lambda>_.
     bind_exn (get_prop repo ''name'') (\<lambda>_.
     bind_exn (get_prop repo ''stars'') (\<lambda>stars.
     bind_exn (get_prop stars ''toLocaleString'') (\<lambda>_.
     bind_exn (get_prop repo ''description'') (\<lambda>_. Inr ())))))"

definition render_result :: "string \<Rightarrow> jsval \<Rightarrow> exn + unit" where
  "render_result functionName result =
     (if functionName = ''search_github_repo'' then
        bind_exn (get_prop result ''status'') (\<lambda>st.
          if st = Str ''success'' then
            bind_exn (get_prop result ''top_results'') (\<lambda>repos.
            bind_exn (array_map ''repos'' render_repo repos) (\<lambda>_. Inr ()))
          else Inr ())
      else Inr ())"

definition addMessage :: "world \<Rightarrow> payload \<Rightarrow> message_type \<Rightarrow> world \<times> (exn + unit)" where
  "addMessage w p t =
     (case (t, p) of
        (Tool_result, PResult functionName result) \<Rightarrow>
          (case render_result functionName result of
             Inl e \<Rightarrow> (w, Inl e)
           | Inr _ \<Rightarrow> (w\<lparr>messages := messages w @ [(t, p)]\<rparr>, Inr ()))
      | _ \<Rightarrow> (w\<lparr>messages := messages w @ [(t, p)]\<rparr>, Inr ()))"

definition setLoading :: "bool \<Rightarrow> world \<Rightarrow> world" where
  "setLoading isLoading w = w\<lparr>loading := isLoading\<rparr>"

section \<open>Agent orchestration loop\<close>

text \<open>A call of \<open>ai.models.generateContent\<close> with \<open>contents: history\<close>.\<close>

definition call_model :: "env \<Rightarrow> world \<Rightarrow> content list \<Rightarrow> world \<times> (exn + response)" where
  "call_model env w history =
     (tick (w\<lparr>requests := requests w @ [history]\<rparr>), generateContent env (clock w) history)"

text \<open>
  The inner \<open>try\<close> block of the loop over the calls: on success, the entry pushed
  to \<open>toolResponses\<close>.
\<close>

definition try_call ::
  "env \<Rightarrow> world \<Rightarrow> string \<Rightarrow> (string \<times> jsval) list \<Rightarrow> world \<times> (exn + string \<times> jsval)" where
  "try_call env w functionName args =
     (case callTool env w functionName args of
        (w1, Inl e) \<Rightarrow> (w1, Inl e)
      | (w1, Inr resultOutput) \<Rightarrow>
          (case addMessage w1 (PResult functionName resultOutput) Tool_result of
             (w2, Inl e) \<Rightarrow> (w2, Inl e)
           | (w2, Inr _) \<Rightarrow> (w2, Inr (functionName, resultOutput))))"

text \<open>One iteration of \<open>for (const call of functionCalls)\<close>, with its \<open>catch\<close>.\<close>

definition dispatch_call :: "env \<Rightarrow> world \<Rightarrow> call \<Rightarrow> world \<times> (exn + string \<times> jsval)" where
  "dispatch_call env w c =
     (let functionName = call_name c; args = call_args c
      in case addMessage w (PCall functionName args) Tool_call of
           (w0, Inl e) \<Rightarrow> (w0, Inl e)
         | (w0, Inr _) \<Rightarrow>
             (case try_call env w0 functionName args of
                (w1, Inr r) \<Rightarrow> (w1, Inr r)
              | (w1, Inl e) \<Rightarrow>
                  (let errorResult =
                         Obj [(''error'', Str (''Function Execution Failed: '' @ message e))]
                   in case addMessage w1 (PResult functionName errorResult) Tool_result of
                        (w2, Inl e') \<Rightarrow> (w2, Inl e')
                      | (w2, Inr _) \<Rightarrow> (w2, Inr (functionName, errorResult)))))"

fun run_calls ::
  "env \<Rightarrow> world \<Rightarrow> call list \<Rightarrow> (string \<times> jsval) list
     \<Rightarrow> world \<times> (exn + (string \<times> jsval) list)" where
  "run_calls env w [] toolResponses = (w, Inr toolResponses)"
| "run_calls env w (c # cs) toolResponses =
     (case dispatch_call env w c of
        (w', Inl e) \<Rightarrow> (w', Inl e)
      | (w', Inr r) \<Rightarrow> run_calls env w' cs (toolResponses @ [r]))"

text \<open>
  The body of the \<open>while\<close> loop: the history after it, and the next response of the
  model or the exception that leaves the loop.
\<close>

definition loop_body ::
  "env \<Rightarrow> world \<Rightarrow> content list \<Rightarrow> response \<Rightarrow> call list
     \<Rightarrow> world \<times> content list \<times> (exn + response)" where
  "loop_body env w history currentResponse calls =
     (let history1 = history @ [candidate_content currentResponse]
      in case run_calls env w calls [] of
           (w1, Inl e) \<Rightarrow> (w1, history1, Inl e)
         | (w1, Inr toolResponses) \<Rightarrow>
             (let toolParts = map (\<lambda>(n, r). FunctionResponse n r) toolResponses;
                  toolResponse = \<lparr>role = ''tool'', parts = toolParts\<rparr>;
                  history2 = history1 @ [toolResponse]
              in case call_model env w1 history2 of (w2, r) \<Rightarrow> (w2, history2, r)))"

text \<open>
  The \<open>while\<close> loop. It has no bound on its iterations, so it is a partial function:
  \<open>None\<close> is the run that never leaves the loop.
\<close>

partial_function (option) tool_loop ::
  "env \<Rightarrow> world \<Rightarrow> content list \<Rightarrow> response
     \<Rightarrow> (world \<times> content list \<times> (exn + response)) option" where
  "tool_loop env w history currentResponse =
     (case functionCalls currentResponse of
        None \<Rightarrow> Some (w, history, Inr currentResponse)
      | Some calls \<Rightarrow>
          if length calls > 0 then
            (case loop_body env w history currentResponse calls of
               (w', history', Inl e) \<Rightarrow> Some (w', history', Inl e)
             | (w', history', Inr next) \<Rightarrow> tool_loop env w' history' next)
          else Some (w, history, Inr currentResponse))"

declare tool_loop.simps [code]

text \<open>The \<open>try\<close> block of \<open>handleFormSubmit\<close>, with the history it ends with.\<close>

definition run_request ::
  "env \<Rightarrow> world \<Rightarrow> string \<Rightarrow> (world \<times> content list \<times> (exn + unit)) option" where
  "run_request env w prompt =
     (let userMessage = \<lparr>role = ''user'', parts = [Text prompt]\<rparr>;
          history = [userMessage]
      in case call_model env w history of
           (w1, Inl e) \<Rightarrow> Some (w1, history, Inl e)
         | (w1, Inr currentResponse) \<Rightarrow>
             (case tool_loop env w1 history currentResponse of
                None \<Rightarrow> None
              | Some (w2, history', Inl e) \<Rightarrow> Some (w2, history', Inl e)
              | Some (w2, history', Inr final) \<Rightarrow>
                  (case addMessage w2 (PText (response_text final)) Model of
                     (w3, r) \<Rightarrow> Some (w3, history', r))))"

text \<open>
  \<open>handleFormSubmit\<close>, given the value of the input field. \<open>Inl\<close> is an exception
  that escapes the handler.
\<close>

definition handleFormSubmit :: "env \<Rightarrow> world \<Rightarrow> string \<Rightarrow> (world \<times> (exn + unit)) option" where
  "handleFormSubmit env w input_value =
     (let prompt = trim input_value
      in if prompt = [] then Some (w, Inr ())
         else
           (case addMessage (setLoading True w) (PText (Some prompt)) User of
              (w1, Inl e) \<Rightarrow> Some (w1, Inl e)
            | (w1, Inr _) \<Rightarrow>
                (case run_request env w1 prompt of
                   None \<Rightarrow> None
                 | Some (w2, _, Inr _) \<Rightarrow> Some (setLoading False w2, Inr ())
                 | Some (w2, _, Inl error) \<Rightarrow>
                     (case addMessage w2
                             (PText (Some ''An error occurred. Please check the console.''))
                             Model of
                        (w3, r) \<Rightarrow> Some (setLoading False w3, r)))))"

text \<open>
  A session: the page as loaded, with its welcome message, and the submissions made
  one after the other (the form is disabled while one is running).
\<close>

definition initial_world :: world where
  "initial_world =
     \<lparr>clock = 0,
      messages = [(Model, PText (Some ''Hello! I am SICA, a Self-Improving Intelligent Coding Agent. How can I assist you with your architectural and coding needs today?''))],
      loading = False,
      requests = []\<rparr>"

fun session :: "env \<Rightarrow> world \<Rightarrow> string list \<Rightarrow> world option" where
  "session env w [] = Some w"
| "session env w (v # vs) =
     (case handleFormSubmit env w v of
        None \<Rightarrow> None
      | Some (w', _) \<Rightarrow> session env w' vs)"

section \<open>Notions of the specification\<close>

text \<open>
  The names for which the dispatcher has an executor are those of the declarations
  sent to the model.
\<close>

definition registered :: "string \<Rightarrow> bool" where
  "registered functionName = (functionName \<in> set (map decl_name functionDeclarations))"

text \<open>
  ``Contains the substring, case-insensitively'', in the words of the specification:
  some stretch of the text equals the word once the letters A to Z of both are
  lowered.
\<close>

definition ascii_lower :: "char \<Rightarrow> char" where
  "ascii_lower c =
     (let n = (of_char c :: nat) in if 65 \<le> n \<and> n \<le> 90 then char_of (n + 32) else c)"

definition contains_ignoring_case :: "string \<Rightarrow> string \<Rightarrow> bool" where
  "contains_ignoring_case s t =
     (\<exists>ps u ss. s = ps @ u @ ss \<and> map ascii_lower u = map ascii_lower t)"

text \<open>The failure payloads of the loop and of the repository search.\<close>

definition errorResult :: "string \<Rightarrow> jsval" where
  "errorResult msg = Obj [(''error'', Str (''Function Execution Failed: '' @ msg))]"

definition search_failure :: "string \<Rightarrow> jsval" where
  "search_failure msg =
     Obj [(''status'', Str ''failure''),
          (''error'', Str (''GitHub API request failed: '' @ msg)),
          (''message'', Str ''Could not fetch repository data from GitHub.'')]"

definition search_url :: "(string \<times> jsval) list \<Rightarrow> string" where
  "search_url args =
     GITHUB_API_URL @ ''?q=''
       @ encodeURIComponent (toString (arg args ''search_term'') @ '' in:name,description,readme'')
       @ ''&sort=stars&order=desc&per_page=5''"

text \<open>The network is unreachable: every fetch is rejected or answers a non-success status.\<close>

definition unreachable :: "env \<Rightarrow> bool" where
  "unreachable env =
     (\<forall>n url. case fetch env n url of Inl e \<Rightarrow> True | Inr r \<Rightarrow> \<not> ok r)"

definition user_turn :: "string \<Rightarrow> content" where
  "user_turn prompt = \<lparr>role = ''user'', parts = [Text prompt]\<rparr>"

definition tool_turn :: "(string \<times> jsval) list \<Rightarrow> content" where
  "tool_turn toolResponses =
     \<lparr>role = ''tool'', parts = map (\<lambda>(n, r). FunctionResponse n r) toolResponses\<rparr>"

text \<open>
  A sequence of histories in which each one extends the one before it (and the first
  extends \<open>h\<close>): nothing is removed or changed, turns are only added at the end.
\<close>

fun append_only :: "content list \<Rightarrow> content list list \<Rightarrow> bool" where
  "append_only h [] = True"
| "append_only h (x # xs) = (prefix h x \<and> append_only x xs)"

section \<open>Sample environments\<close>

definition text_response :: "string \<Rightarrow> response" where
  "text_response s =
     \<lparr>functionCalls = None,
      candidate_content = \<lparr>role = ''model'', parts = [Text s]\<rparr>,
      response_text = Some s\<rparr>"

definition calls_response :: "call list \<Rightarrow> response" where
  "calls_response cs =
     \<lparr>functionCalls = Some cs,
      candidate_content = \<lparr>role = ''model'', parts = map FunctionCall cs\<rparr>,
      response_text = None\<rparr>"

definition offline_fetch :: "nat \<Rightarrow> string \<Rightarrow> exn + http_response" where
  "offline_fetch n url = Inl (TypeError ''Failed to fetch'')"

text \<open>A model that answers every request with plain text.\<close>

definition text_env :: env where
  "text_env =
     \<lparr>generateContent = (\<lambda>n h. Inr (text_response ''It is noon.'')),
      random = (\<lambda>n. 1 / 2),
      toLocaleTimeString = (\<lambda>n. ''12:00:00 PM''),
      fetch = offline_fetch\<rparr>"

definition demo_calls :: "call list" where
  "demo_calls =
     [\<lparr>call_name = ''getWeather'', call_args = [(''location'', Str ''Tokyo, JP'')]\<rparr>,
      \<lparr>call_name = ''launchRocket'', call_args = []\<rparr>,
      \<lparr>call_name = ''search_github_repo'',
       call_args = [(''search_term'', Str ''isabelle hol'')]\<rparr>]"

text \<open>
  A model that asks for three tools when the last turn is the user's, and answers
  with text once it has seen their results.
\<close>

definition tool_env :: env where
  "tool_env =
     \<lparr>generateContent =
        (\<lambda>n h. if role (last h) = ''user'' then Inr (calls_response demo_calls)
               else Inr (text_response ''Done.'')),
      random = (\<lambda>n. 1 / 2),
      toLocaleTimeString = (\<lambda>n. ''12:00:00 PM''),
      fetch = offline_fetch\<rparr>"

section \<open>The mock tools\<close>

text \<open>\<open>show_nat\<close> writes the decimal numeral: reading its digits back gives the number.\<close>

lemma digit_value:
  assumes "d < 10"
  shows "(of_char (''0123456789'' ! d) :: nat) = 48 + d"
proof -
  from assms have "d \<in> {0, 1, 2, 3, 4, 5, 6, 7, 8, 9}" by auto
  then show ?thesis by auto
qed

lemma show_nat_decimal:
  "foldl (\<lambda>a c. 10 * a + (of_char c - 48)) 0 (show_nat n) = n"
proof (induction n rule: show_nat.induct)
  case (1 n)
  show ?case
  proof (cases "n < 10")
    case True
    then show ?thesis by (subst show_nat.simps) (simp add: digit_value)
  next
    case False
    with 1 have "foldl (\<lambda>a c. 10 * a + (of_char c - 48)) 0 (show_nat (n div 10)) = n div 10"
      by simp
    with False show ?thesis
      by (subst show_nat.simps) (simp add: digit_value)
  qed
qed






lemma includes_str_iff: "includes_str s t \<longleftrightarrow> (\<exists>ps ss. s = ps @ t @ ss)"
proof (induction s)
  case Nil
  then show ?case by auto
next
  case (Cons c s)
  show ?case
  proof
    assume "includes_str (c # s) t"
    then consider "prefix t (c # s)" | "includes_str s t" by auto
    then show "\<exists>ps ss. c # s = ps @ t @ ss"
    proof cases
      case 1
      then obtain ss where "c # s = t @ ss" by (auto simp: prefix_def)
      then have "c # s = [] @ t @ ss" by simp
      then show ?thesis by blast
    next
      case 2
      with Cons.IH obtain ps ss where "s = ps @ t @ ss" by blast
      then have "c # s = (c # ps) @ t @ ss" by simp
      then show ?thesis by blast
    qed
  next
    assume "\<exists>ps ss. c # s = ps @ t @ ss"
    then obtain ps ss where eq: "c # s = ps @ t @ ss" by blast
    show "includes_str (c # s) t"
    proof (cases ps)
      case Nil
      with eq have "prefix t (c # s)" by (simp add: prefix_def)
      then show ?thesis by simp
    next
      case (Cons p ps')
      with eq have "s = ps' @ t @ ss" by simp
      with Cons.IH have "includes_str s t" by blast
      then show ?thesis by simp
    qed
  qed
qed

lemma lower_unit_agree:
  assumes "(of_char x :: nat) \<in> {101, 111, 114}"
  shows "toLowerCase_unit c = x \<longleftrightarrow> ascii_lower c = x"
proof -
  have lt: "(of_char c :: nat) < 256" by simp
  have "(of_char (toLowerCase_unit c) :: nat) = of_char x
          \<longleftrightarrow> (of_char (ascii_lower c) :: nat) = of_char x"
    using assms lt by (auto simp: toLowerCase_unit_def ascii_lower_def Let_def)
  then show ?thesis by (simp only: of_char_eq_iff)
qed

lemma lower_error_agree:
  "map toLowerCase_unit u = ''error'' \<longleftrightarrow> map ascii_lower u = ''error''"
proof -
  have e: "\<And>c. toLowerCase_unit c = CHR ''e'' \<longleftrightarrow> ascii_lower c = CHR ''e''"
    by (rule lower_unit_agree) simp
  have r: "\<And>c. toLowerCase_unit c = CHR ''r'' \<longleftrightarrow> ascii_lower c = CHR ''r''"
    by (rule lower_unit_agree) simp
  have o: "\<And>c. toLowerCase_unit c = CHR ''o'' \<longleftrightarrow> ascii_lower c = CHR ''o''"
    by (rule lower_unit_agree) simp
  show ?thesis
    by (simp only: map_eq_Cons_conv map_is_Nil_conv e r o)
qed

lemma map_has_stretch:
  "(\<exists>ps ss. map f xs = ps @ t @ ss) \<longleftrightarrow> (\<exists>ps u ss. xs = ps @ u @ ss \<and> map f u = t)"
proof
  assume "\<exists>ps ss. map f xs = ps @ t @ ss"
  then obtain ps ss where "map f xs = ps @ (t @ ss)" by blast
  then have "\<exists>as bs. xs = as @ bs \<and> ps = map f as \<and> t @ ss = map f bs"
    by (simp only: map_eq_append_conv)
  then obtain as bs where xs: "xs = as @ bs" and bs: "t @ ss = map f bs" by blast
  from bs have "\<exists>u ss'. bs = u @ ss' \<and> t = map f u \<and> ss = map f ss'"
    by (simp only: append_eq_map_conv)
  then obtain u ss' where "bs = u @ ss'" and "map f u = t" by auto
  with xs show "\<exists>ps u ss. xs = ps @ u @ ss \<and> map f u = t" by blast
next
  assume "\<exists>ps u ss. xs = ps @ u @ ss \<and> map f u = t"
  then obtain ps u ss where "xs = ps @ u @ ss" and "map f u = t" by blast
  then have "map f xs = map f ps @ t @ map f ss" by simp
  then show "\<exists>ps ss. map f xs = ps @ t @ ss" by blast
qed

lemma ascii_lower_error: "map ascii_lower ''error'' = ''error''"
  by (simp add: ascii_lower_def)

lemma includes_error_iff:
  "includes_str (toLowerCase logs) ''error'' \<longleftrightarrow> contains_ignoring_case logs ''error''"
  by (simp only: includes_str_iff toLowerCase_def map_has_stretch lower_error_agree
        contains_ignoring_case_def ascii_lower_error)

lemma endings_differ:
  "\<not> suffix lesson_learned (pre @ good_start)" "\<not> suffix good_start (pre @ lesson_learned)"
proof -
  have a: "\<not> suffix lesson_learned good_start" "\<not> suffix good_start lesson_learned"
    by (simp_all add: suffix_to_prefix lesson_learned_def good_start_def)
  have g: "suffix good_start (pre @ good_start)" and l: "suffix lesson_learned (pre @ lesson_learned)"
    by (rule suffixI, simp)+
  show "\<not> suffix lesson_learned (pre @ good_start)"
    using a g suffix_same_cases [of lesson_learned "pre @ good_start" good_start] by blast
  show "\<not> suffix good_start (pre @ lesson_learned)"
    using a l suffix_same_cases [of good_start "pre @ lesson_learned" lesson_learned] by blast
qed

text \<open>
  Claim C10. For string arguments, \<open>perform_code_critique\<close> returns an object with the
  single field \<open>critique\<close>, which holds the code block and the execution logs
  verbatim between its fixed lines; it ends with the ``Lesson Learned'' sentence
  exactly when the logs contain \<open>error\<close> in any mix of upper and lower case, and with
  the ``good start'' sentence exactly when they do not.
\<close>

theorem perform_code_critique_result:
  "\<exists>c. callTool env w ''perform_code_critique''
           [(''code_block'', Str code_block), (''execution_logs'', Str execution_logs)]
          = (w, Inr (Obj [(''critique'', Str c)]))
      \<and> c = ''Critique for code:'' @ [CHR 0x0A] @ ''---'' @ [CHR 0x0A]
              @ code_block @ [CHR 0x0A] @ ''---'' @ [CHR 0x0A]
              @ ''Based on logs:'' @ [CHR 0x0A] @ ''---'' @ [CHR 0x0A]
              @ execution_logs @ [CHR 0x0A] @ ''---'' @ [CHR 0x0A]
              @ (if contains_ignoring_case execution_logs ''error''
                 then lesson_learned else good_start)
      \<and> (suffix lesson_learned c \<longleftrightarrow> contains_ignoring_case execution_logs ''error'')
      \<and> (suffix good_start c \<longleftrightarrow> \<not> contains_ignoring_case execution_logs ''error'')"
proof -
  let ?pre = "''Critique for code:'' @ [CHR 0x0A] @ ''---'' @ [CHR 0x0A]
              @ code_block @ [CHR 0x0A] @ ''---'' @ [CHR 0x0A]
              @ ''Based on logs:'' @ [CHR 0x0A] @ ''---'' @ [CHR 0x0A]
              @ execution_logs @ [CHR 0x0A] @ ''---'' @ [CHR 0x0A]"
  let ?ending = "if contains_ignoring_case execution_logs ''error''
                 then lesson_learned else good_start"
  have res: "callTool env w ''perform_code_critique''
           [(''code_block'', Str code_block), (''execution_logs'', Str execution_logs)]
          = (w, Inr (Obj [(''critique'', Str (?pre @ ?ending))]))"
    by (simp add: callTool_def perform_code_critique_def arg_def Let_def includes_error_iff)
  have l: "suffix lesson_learned (?pre @ ?ending)
             \<longleftrightarrow> contains_ignoring_case execution_logs ''error''"
  proof (cases "contains_ignoring_case execution_logs ''error''")
    case True
    have "suffix lesson_learned (?pre @ lesson_learned)" by (rule suffixI) simp
    with True show ?thesis by simp
  next
    case False
    have "\<not> suffix lesson_learned (?pre @ good_start)" by (rule endings_differ)
    with False show ?thesis by simp
  qed
  have g: "suffix good_start (?pre @ ?ending)
             \<longleftrightarrow> \<not> contains_ignoring_case execution_logs ''error''"
  proof (cases "contains_ignoring_case execution_logs ''error''")
    case True
    have "\<not> suffix good_start (?pre @ lesson_learned)" by (rule endings_differ)
    with True show ?thesis by simp
  next
    case False
    have "suffix good_start (?pre @ good_start)" by (rule suffixI) simp
    with False show ?thesis by simp
  qed
  from res l g show ?thesis by (simp del: append.simps append_assoc)
qed

section \<open>Dispatch at the call site\<close>

lemma addMessage_call:
  "addMessage w (PCall f a) Tool_call = (w\<lparr>messages := messages w @ [(Tool_call, PCall f a)]\<rparr>, Inr ())"
  by (simp add: addMessage_def)

lemma addMessage_text:
  "addMessage w (PText s) t = (w\<lparr>messages := messages w @ [(t, PText s)]\<rparr>, Inr ())"
  by (simp add: addMessage_def split: message_type.split)

lemma render_errorResult: "render_result f (errorResult msg) = Inr ()"
  by (simp add: render_result_def errorResult_def bind_exn_def)

lemma addMessage_errorResult:
  "addMessage w (PResult f (errorResult msg)) Tool_result
     = (w\<lparr>messages := messages w @ [(Tool_result, PResult f (errorResult msg))]\<rparr>, Inr ())"
  by (simp add: addMessage_def render_errorResult)

lemma addMessage_cases:
  "addMessage w p t = (w\<lparr>messages := messages w @ [(t, p)]\<rparr>, Inr ())
   \<or> (\<exists>e. addMessage w p t = (w, Inl e))"
  by (auto simp: addMessage_def split: message_type.split payload.split sum.split)

lemma callTool_unknown:
  assumes "\<not> registered functionName"
  shows "callTool env w functionName args = (w, Inl (Error (''Unknown function: '' @ functionName)))"
proof -
  have "functionName \<notin> {''getWeather'', ''getCurrentTime'', ''controlFan'', ''search_github_repo'',
          ''execute_code'', ''retrieve_knowledge'', ''perform_code_critique''}"
    using assms by (simp add: registered_def functionDeclarations_def)
  then show ?thesis by (simp add: callTool_def)
qed

lemma dispatch_call_eq:
  "dispatch_call env w c =
     (case try_call env (w\<lparr>messages := messages w @ [(Tool_call, PCall (call_name c) (call_args c))]\<rparr>)
             (call_name c) (call_args c) of
        (w1, Inr r) \<Rightarrow> (w1, Inr r)
      | (w1, Inl e) \<Rightarrow>
          (w1\<lparr>messages := messages w1
                  @ [(Tool_result, PResult (call_name c) (errorResult (message e)))]\<rparr>,
           Inr (call_name c, errorResult (message e))))"
  by (simp add: dispatch_call_def Let_def addMessage_call errorResult_def addMessage_def
        render_result_def bind_exn_def split: prod.split sum.split)

lemma dispatch_call_unknown:
  assumes "\<not> registered (call_name c)"
  shows "dispatch_call env w c
           = (w\<lparr>messages := messages w @
                   [(Tool_call, PCall (call_name c) (call_args c)),
                    (Tool_result,
                     PResult (call_name c) (errorResult (''Unknown function: '' @ call_name c)))]\<rparr>,
              Inr (call_name c, errorResult (''Unknown function: '' @ call_name c)))"
  by (simp add: dispatch_call_eq try_call_def callTool_unknown [OF assms])

lemma try_call_name: "try_call env w f a = (w1, Inr r) \<Longrightarrow> fst r = f"
  by (auto simp: try_call_def split: prod.splits sum.splits)

lemma dispatch_call_total: "\<exists>w' r. dispatch_call env w c = (w', Inr (call_name c, r))"
proof -
  let ?f = "call_name c" and ?a = "call_args c"
  let ?w0 = "w\<lparr>messages := messages w @ [(Tool_call, PCall ?f ?a)]\<rparr>"
  obtain w1 out where t: "try_call env ?w0 ?f ?a = (w1, out)" by (cases "try_call env ?w0 ?f ?a")
  show ?thesis
  proof (cases out)
    case (Inr r)
    with t have "fst r = ?f" by (simp add: try_call_name)
    with t Inr show ?thesis
      by (cases r) (simp add: dispatch_call_eq)
  next
    case (Inl e)
    with t show ?thesis
      by (simp add: dispatch_call_eq)
  qed
qed

lemma run_calls_total:
  "\<exists>w' rs. run_calls env w cs acc = (w', Inr (acc @ rs)) \<and> map fst rs = map call_name cs"
proof (induction cs arbitrary: w acc)
  case Nil
  then show ?case by simp
next
  case (Cons c cs)
  obtain w1 r where d: "dispatch_call env w c = (w1, Inr (call_name c, r))"
    using dispatch_call_total by blast
  from Cons.IH [of w1 "acc @ [(call_name c, r)]"]
  obtain w' rs where "run_calls env w1 cs (acc @ [(call_name c, r)]) = (w', Inr ((acc @ [(call_name c, r)]) @ rs))"
    and "map fst rs = map call_name cs" by blast
  with d have "run_calls env w (c # cs) acc = (w', Inr (acc @ ((call_name c, r) # rs)))
      \<and> map fst ((call_name c, r) # rs) = map call_name (c # cs)"
    by simp
  then show ?case by blast
qed

lemma run_calls_nth:
  assumes "run_calls env w cs acc = (w', Inr rs)" and "i < length cs"
  shows "\<exists>wi wi'. dispatch_call env wi (cs ! i) = (wi', Inr (rs ! (length acc + i)))"
  using assms
proof (induction cs arbitrary: w acc i)
  case Nil
  then show ?case by simp
next
  case (Cons c cs)
  obtain w1 r where d: "dispatch_call env w c = (w1, Inr r)"
    using dispatch_call_total by blast
  with Cons.prems have rest: "run_calls env w1 cs (acc @ [r]) = (w', Inr rs)" by simp
  obtain rs' where "run_calls env w1 cs (acc @ [r]) = (w', Inr ((acc @ [r]) @ rs'))"
    using run_calls_total [of env w1 cs "acc @ [r]"] rest by auto
  with rest have rs: "rs = acc @ r # rs'" by simp
  show ?case
  proof (cases i)
    case 0
    with d rs show ?thesis by (auto simp: nth_append)
  next
    case (Suc j)
    with Cons.prems have "j < length cs" by simp
    from Cons.IH [OF rest this] Suc show ?thesis by simp
  qed
qed

lemma loop_body_spec:
  "\<exists>w1 rs. run_calls env w calls [] = (w1, Inr rs)
      \<and> map fst rs = map call_name calls
      \<and> loop_body env w history currentResponse calls
          = (tick (w1\<lparr>requests := requests w1
                        @ [history @ [candidate_content currentResponse, tool_turn rs] ]\<rparr>),
             history @ [candidate_content currentResponse, tool_turn rs],
             generateContent env (clock w1)
               (history @ [candidate_content currentResponse, tool_turn rs]))"
proof -
  obtain w1 rs where r: "run_calls env w calls [] = (w1, Inr rs)"
    and n: "map fst rs = map call_name calls"
    using run_calls_total [of env w calls "[]"] by auto
  then show ?thesis
    by (simp add: loop_body_def call_model_def tool_turn_def Let_def)
qed

section \<open>One turn of tool calls\<close>





lemma loop_body_nth:
  assumes "i < length calls"
  shows "\<exists>w1 rs wi wi'.
           length rs = length calls
         \<and> dispatch_call env wi (calls ! i) = (wi', Inr (rs ! i))
         \<and> loop_body env w history currentResponse calls
             = (tick (w1\<lparr>requests := requests w1
                           @ [history @ [candidate_content currentResponse, tool_turn rs] ]\<rparr>),
                history @ [candidate_content currentResponse, tool_turn rs],
                generateContent env (clock w1)
                  (history @ [candidate_content currentResponse, tool_turn rs]))"
proof -
  obtain w1 rs where r: "run_calls env w calls [] = (w1, Inr rs)"
    and n: "map fst rs = map call_name calls"
    and b: "loop_body env w history currentResponse calls
          = (tick (w1\<lparr>requests := requests w1
                        @ [history @ [candidate_content currentResponse, tool_turn rs] ]\<rparr>),
             history @ [candidate_content currentResponse, tool_turn rs],
             generateContent env (clock w1)
               (history @ [candidate_content currentResponse, tool_turn rs]))"
    using loop_body_spec by blast
  from n have len: "length rs = length calls" by (metis length_map)
  from run_calls_nth [OF r assms] obtain wi wi'
    where "dispatch_call env wi (calls ! i) = (wi', Inr (rs ! i))" by auto
  with len b show ?thesis by blast
qed

text \<open>
  Claim C1. A dispatch under a name with no registered executor makes \<open>callTool\<close>
  throw, and the throw never passes the call site: the call yields the failure result
  \<open>{error: "Function Execution Failed: Unknown function: <name>"}\<close> under the
  request's name. Wherever such a call stands in a batch, that result is at its place
  in the tool turn sent to the model with the next request, and the loop body ends
  with that request, not with an exception of the call.
\<close>

theorem unknown_tool_is_caught:
  assumes "\<not> registered (call_name c)"
  shows "callTool env w (call_name c) (call_args c)
           = (w, Inl (Error (''Unknown function: '' @ call_name c)))
       \<and> snd (dispatch_call env w c)
           = Inr (call_name c, errorResult (''Unknown function: '' @ call_name c))
       \<and> (\<forall>w0 history currentResponse calls i.
            i < length calls \<and> calls ! i = c \<longrightarrow>
            (\<exists>w1 rs.
               length rs = length calls
             \<and> rs ! i = (call_name c, errorResult (''Unknown function: '' @ call_name c))
             \<and> loop_body env w0 history currentResponse calls
                 = (tick (w1\<lparr>requests := requests w1
                           @ [history @ [candidate_content currentResponse, tool_turn rs] ]\<rparr>),
                    history @ [candidate_content currentResponse, tool_turn rs],
                    generateContent env (clock w1)
                      (history @ [candidate_content currentResponse, tool_turn rs]))))"
proof (intro conjI allI impI)
  show "callTool env w (call_name c) (call_args c)
           = (w, Inl (Error (''Unknown function: '' @ call_name c)))"
    by (rule callTool_unknown [OF assms])
  show "snd (dispatch_call env w c)
           = Inr (call_name c, errorResult (''Unknown function: '' @ call_name c))"
    by (simp add: dispatch_call_unknown [OF assms])
next
  fix w0 history currentResponse calls i
  assume "i < length calls \<and> calls ! i = c"
  then have i: "i < length calls" and c: "calls ! i = c" by simp_all
  from loop_body_nth [OF i, of env w0 history currentResponse]
  obtain w1 rs wi wi' where len: "length rs = length calls"
    and d: "dispatch_call env wi (calls ! i) = (wi', Inr (rs ! i))"
    and b: "loop_body env w0 history currentResponse calls
             = (tick (w1\<lparr>requests := requests w1
                           @ [history @ [candidate_content currentResponse, tool_turn rs] ]\<rparr>),
                history @ [candidate_content currentResponse, tool_turn rs],
                generateContent env (clock w1)
                  (history @ [candidate_content currentResponse, tool_turn rs]))"
    by blast
  from d c have "rs ! i = (call_name c, errorResult (''Unknown function: '' @ call_name c))"
    by (simp add: dispatch_call_unknown [OF assms])
  with len b show "\<exists>w1 rs.
               length rs = length calls
             \<and> rs ! i = (call_name c, errorResult (''Unknown function: '' @ call_name c))
             \<and> loop_body env w0 history currentResponse calls
                 = (tick (w1\<lparr>requests := requests w1
                           @ [history @ [candidate_content currentResponse, tool_turn rs] ]\<rparr>),
                    history @ [candidate_content currentResponse, tool_turn rs],
                    generateContent env (clock w1)
                      (history @ [candidate_content currentResponse, tool_turn rs]))"
    by blast
qed

theorem unknown_tool_is_caught_witness:
  "\<not> registered ''launchRocket''
   \<and> callTool tool_env initial_world ''launchRocket'' []
        = (initial_world, Inl (Error ''Unknown function: launchRocket''))
   \<and> snd (dispatch_call tool_env initial_world \<lparr>call_name = ''launchRocket'', call_args = []\<rparr>)
        = Inr (''launchRocket'', errorResult ''Unknown function: launchRocket'')
   \<and> (\<exists>w1 rs. length rs = length demo_calls
         \<and> rs ! 1 = (''launchRocket'', errorResult ''Unknown function: launchRocket'')
         \<and> loop_body tool_env initial_world [user_turn ''go''] (calls_response demo_calls) demo_calls
             = (tick (w1\<lparr>requests := requests w1
                       @ [ [user_turn ''go''] @ [candidate_content (calls_response demo_calls), tool_turn rs] ]\<rparr>),
                [user_turn ''go''] @ [candidate_content (calls_response demo_calls), tool_turn rs],
                generateContent tool_env (clock w1)
                  ([user_turn ''go''] @ [candidate_content (calls_response demo_calls), tool_turn rs])))"
proof -
  let ?c = "\<lparr>call_name = ''launchRocket'', call_args = []\<rparr>"
  have r: "\<not> registered (call_name ?c)"
    by (simp add: registered_def functionDeclarations_def)
  have i: "1 < length demo_calls \<and> demo_calls ! 1 = ?c"
    by (simp add: demo_calls_def)
  note t = unknown_tool_is_caught [OF r, of tool_env initial_world]
  note batch = t [THEN conjunct2, THEN conjunct2, rule_format, OF i,
      of initial_world "[user_turn ''go'']" "calls_response demo_calls"]
  have a: "\<not> registered ''launchRocket''" using r by simp
  have b: "callTool tool_env initial_world ''launchRocket'' []
        = (initial_world, Inl (Error ''Unknown function: launchRocket''))"
    using t [THEN conjunct1] by simp
  have c: "snd (dispatch_call tool_env initial_world ?c)
        = Inr (''launchRocket'', errorResult ''Unknown function: launchRocket'')"
    using t [THEN conjunct2, THEN conjunct1] by simp
  have d: "call_name ?c = ''launchRocket''" by simp
  have e: "''Unknown function: '' @ ''launchRocket'' = ''Unknown function: launchRocket''"
    by simp
  from a b c batch [unfolded d e] show ?thesis by (intro conjI)
qed

section \<open>Failures of the repository search\<close>

lemma search_try_unreachable:
  assumes "case fetch env (clock w) url of Inl e \<Rightarrow> True | Inr r \<Rightarrow> \<not> ok r"
  shows "\<exists>e. search_try env w url = (tick w, Inl e)"
proof (cases "fetch env (clock w) url")
  case (Inl e)
  then show ?thesis by (simp add: search_try_def)
next
  case (Inr response)
  with assms have nok: "\<not> ok response" by simp
  have "\<exists>e. bind_exn (json response) (\<lambda>errorData.
             bind_exn (get_prop errorData ''message'') (\<lambda>m.
               Inl (Error (''GitHub API error! status: '' @ show_int (status response)
                           @ '', message: '' @ toString m)))) = Inl e"
    by (auto simp: bind_exn_def split: sum.split)
  with Inr nok show ?thesis by (auto simp: search_try_def)
qed

lemma search_github_repo_eq:
  "search_github_repo env w args =
     (case search_try env w (search_url args) of
        (w', Inr v) \<Rightarrow> (w', v)
      | (w', Inl error) \<Rightarrow> (w', search_failure (message error)))"
  by (simp add: search_github_repo_def search_url_def search_failure_def Let_def
        split: prod.split sum.split)

lemma search_github_repo_unreachable:
  assumes "case fetch env (clock w) (search_url args) of Inl e \<Rightarrow> True | Inr r \<Rightarrow> \<not> ok r"
  shows "\<exists>msg. search_github_repo env w args = (tick w, search_failure msg)"
proof -
  from search_try_unreachable [OF assms] obtain e
    where "search_try env w (search_url args) = (tick w, Inl e)" by blast
  then have "search_github_repo env w args = (tick w, search_failure (message e))"
    by (simp add: search_github_repo_eq)
  then show ?thesis by blast
qed

lemma render_search_failure: "render_result f (search_failure msg) = Inr ()"
  by (simp add: render_result_def search_failure_def bind_exn_def)

lemma callTool_search:
  "callTool env w ''search_github_repo'' args = map_prod id Inr (search_github_repo env w args)"
  by (simp add: callTool_def)

lemma dispatch_call_search_unreachable:
  assumes "unreachable env" and "call_name c = ''search_github_repo''"
  shows "\<exists>w' msg. dispatch_call env w c = (w', Inr (''search_github_repo'', search_failure msg))"
proof -
  let ?w0 = "w\<lparr>messages := messages w @ [(Tool_call, PCall (call_name c) (call_args c))]\<rparr>"
  have "case fetch env (clock ?w0) (search_url (call_args c)) of
          Inl e \<Rightarrow> True | Inr r \<Rightarrow> \<not> ok r"
    using assms(1) unfolding unreachable_def by blast
  from search_github_repo_unreachable [OF this] obtain msg
    where "search_github_repo env ?w0 (call_args c) = (tick ?w0, search_failure msg)" by blast
  then have "try_call env ?w0 ''search_github_repo'' (call_args c)
      = ((tick ?w0)\<lparr>messages := messages (tick ?w0)
            @ [(Tool_result, PResult ''search_github_repo'' (search_failure msg))]\<rparr>,
         Inr (''search_github_repo'', search_failure msg))"
    by (simp add: try_call_def callTool_search addMessage_def render_search_failure)
  then have "dispatch_call env w c
      = ((tick ?w0)\<lparr>messages := messages (tick ?w0)
            @ [(Tool_result, PResult ''search_github_repo'' (search_failure msg))]\<rparr>,
         Inr (''search_github_repo'', search_failure msg))"
    using assms(2) by (simp add: dispatch_call_eq)
  then show ?thesis by blast
qed

text \<open>
  Claim C6. A call of \<open>search_github_repo\<close> whose fetch is rejected or answers a
  non-success status returns a result with \<open>status\<close> equal to \<open>failure\<close> and a
  non-empty \<open>error\<close> string. With the network unreachable, wherever such a call stands
  in a batch, that failure result is at its place in the tool turn sent to the model
  with the next request, and the loop body ends with that request: it does not abort.
\<close>

theorem search_unreachable_failure:
  "((case fetch env (clock w) (search_url args) of Inl e \<Rightarrow> True | Inr r \<Rightarrow> \<not> ok r) \<longrightarrow>
      (\<exists>err. err \<noteq> [] \<and>
         callTool env w ''search_github_repo'' args
           = (tick w, Inr (Obj [(''status'', Str ''failure''), (''error'', Str err),
                  (''message'', Str ''Could not fetch repository data from GitHub.'')]))))
   \<and> (unreachable env \<longrightarrow>
        (\<forall>w0 history currentResponse calls i.
           i < length calls \<and> call_name (calls ! i) = ''search_github_repo'' \<longrightarrow>
           (\<exists>w1 rs err.
              length rs = length calls
            \<and> err \<noteq> []
            \<and> rs ! i = (''search_github_repo'',
                        Obj [(''status'', Str ''failure''), (''error'', Str err),
                             (''message'', Str ''Could not fetch repository data from GitHub.'')])
            \<and> loop_body env w0 history currentResponse calls
                = (tick (w1\<lparr>requests := requests w1
                          @ [history @ [candidate_content currentResponse, tool_turn rs] ]\<rparr>),
                   history @ [candidate_content currentResponse, tool_turn rs],
                   generateContent env (clock w1)
                     (history @ [candidate_content currentResponse, tool_turn rs])))))"
proof (intro conjI allI impI)
  assume "case fetch env (clock w) (search_url args) of Inl e \<Rightarrow> True | Inr r \<Rightarrow> \<not> ok r"
  from search_github_repo_unreachable [OF this] obtain msg
    where "search_github_repo env w args = (tick w, search_failure msg)" by blast
  then have "callTool env w ''search_github_repo'' args
           = (tick w, Inr (Obj [(''status'', Str ''failure''),
                  (''error'', Str (''GitHub API request failed: '' @ msg)),
                  (''message'', Str ''Could not fetch repository data from GitHub.'')]))"
    by (simp add: callTool_search search_failure_def)
  moreover have "''GitHub API request failed: '' @ msg \<noteq> []" by simp
  ultimately show "\<exists>err. err \<noteq> [] \<and>
         callTool env w ''search_github_repo'' args
           = (tick w, Inr (Obj [(''status'', Str ''failure''), (''error'', Str err),
                  (''message'', Str ''Could not fetch repository data from GitHub.'')]))"
    by blast
next
  fix w0 history currentResponse and calls :: "call list" and i
  assume u: "unreachable env"
    and "i < length calls \<and> call_name (calls ! i) = ''search_github_repo''"
  then have i: "i < length calls" and c: "call_name (calls ! i) = ''search_github_repo''"
    by simp_all
  from loop_body_nth [OF i, of env w0 history currentResponse]
  obtain w1 rs wi wi' where len: "length rs = length calls"
    and d: "dispatch_call env wi (calls ! i) = (wi', Inr (rs ! i))"
    and b: "loop_body env w0 history currentResponse calls
             = (tick (w1\<lparr>requests := requests w1
                           @ [history @ [candidate_content currentResponse, tool_turn rs] ]\<rparr>),
                history @ [candidate_content currentResponse, tool_turn rs],
                generateContent env (clock w1)
                  (history @ [candidate_content currentResponse, tool_turn rs]))"
    by blast
  from dispatch_call_search_unreachable [OF u c, of wi] d obtain msg
    where "rs ! i = (''search_github_repo'', search_failure msg)" by auto
  then have r: "rs ! i = (''search_github_repo'',
                        Obj [(''status'', Str ''failure''),
                             (''error'', Str (''GitHub API request failed: '' @ msg)),
                             (''message'', Str ''Could not fetch repository data from GitHub.'')])"
    by (simp add: search_failure_def)
  have ne: "''GitHub API request failed: '' @ msg \<noteq> []" by simp
  from len ne r b show "\<exists>w1 rs err.
              length rs = length calls
            \<and> err \<noteq> []
            \<and> rs ! i = (''search_github_repo'',
                        Obj [(''status'', Str ''failure''), (''error'', Str err),
                             (''message'', Str ''Could not fetch repository data from GitHub.'')])
            \<and> loop_body env w0 history currentResponse calls
                = (tick (w1\<lparr>requests := requests w1
                          @ [history @ [candidate_content currentResponse, tool_turn rs] ]\<rparr>),
                   history @ [candidate_content currentResponse, tool_turn rs],
                   generateContent env (clock w1)
                     (history @ [candidate_content currentResponse, tool_turn rs]))"
    by blast
qed

theorem search_unreachable_failure_witness:
  "(case fetch tool_env (clock initial_world) (search_url [(''search_term'', Str ''isabelle hol'')]) of
      Inl e \<Rightarrow> True | Inr r \<Rightarrow> \<not> ok r)
   \<and> unreachable tool_env
   \<and> (\<exists>err. err \<noteq> [] \<and>
         callTool tool_env initial_world ''search_github_repo'' [(''search_term'', Str ''isabelle hol'')]
           = (tick initial_world,
              Inr (Obj [(''status'', Str ''failure''), (''error'', Str err),
                  (''message'', Str ''Could not fetch repository data from GitHub.'')])))
   \<and> (\<exists>w1 rs err.
              length rs = length demo_calls
            \<and> err \<noteq> []
            \<and> rs ! 2 = (''search_github_repo'',
                        Obj [(''status'', Str ''failure''), (''error'', Str err),
                             (''message'', Str ''Could not fetch repository data from GitHub.'')])
            \<and> loop_body tool_env initial_world [user_turn ''go''] (calls_response demo_calls) demo_calls
                = (tick (w1\<lparr>requests := requests w1
                          @ [ [user_turn ''go''] @ [candidate_content (calls_response demo_calls), tool_turn rs] ]\<rparr>),
                   [user_turn ''go''] @ [candidate_content (calls_response demo_calls), tool_turn rs],
                   generateContent tool_env (clock w1)
                     ([user_turn ''go''] @ [candidate_content (calls_response demo_calls), tool_turn rs])))"
proof -
  let ?args = "[(''search_term'', Str ''isabelle hol'')]"
  have off: "\<And>n url. fetch tool_env n url = Inl (TypeError ''Failed to fetch'')"
    by (simp add: tool_env_def offline_fetch_def)
  have h1: "case fetch tool_env (clock initial_world) (search_url ?args) of
      Inl e \<Rightarrow> True | Inr r \<Rightarrow> \<not> ok r"
    by (simp only: off sum.case)
  have h2: "unreachable tool_env"
    by (simp add: unreachable_def off)
  have i: "2 < length demo_calls \<and> call_name (demo_calls ! 2) = ''search_github_repo''"
    by (simp add: demo_calls_def)
  note t = search_unreachable_failure [of tool_env initial_world ?args]
  note single = t [THEN conjunct1, rule_format, OF h1]
  note batch = t [THEN conjunct2, rule_format, OF h2 i,
      of initial_world "[user_turn ''go'']" "calls_response demo_calls"]
  from h1 h2 single batch show ?thesis by (intro conjI)
qed

lemma search_same_cause:
  assumes "fetch env1 (clock w1) (search_url args) = fetch env2 (clock w2) (search_url args)"
  shows "snd (search_github_repo env1 w1 args) = snd (search_github_repo env2 w2 args)"
proof -
  from assms have "snd (search_try env1 w1 (search_url args)) = snd (search_try env2 w2 (search_url args))"
    by (simp add: search_try_def split: sum.split)
  then show ?thesis
    by (auto simp: search_github_repo_eq split: prod.split sum.split)
qed

text \<open>
  Claim C9. The same failed dispatch, run twice in any two environments and states,
  yields the same failure payload: for a name with no registered executor, the same
  exception of \<open>callTool\<close> and the same result at the call site; and for a repository
  search, the same result whenever the fetch answers the same.
\<close>

theorem failed_dispatch_repeatable:
  "(\<not> registered functionName \<longrightarrow>
      snd (callTool env1 w1 functionName args) = snd (callTool env2 w2 functionName args)
    \<and> snd (callTool env1 w1 functionName args) = Inl (Error (''Unknown function: '' @ functionName))
    \<and> snd (dispatch_call env1 w1 \<lparr>call_name = functionName, call_args = args\<rparr>)
        = snd (dispatch_call env2 w2 \<lparr>call_name = functionName, call_args = args\<rparr>)
    \<and> snd (dispatch_call env1 w1 \<lparr>call_name = functionName, call_args = args\<rparr>)
        = Inr (functionName, errorResult (''Unknown function: '' @ functionName)))
   \<and> (fetch env1 (clock w1) (search_url args) = fetch env2 (clock w2) (search_url args) \<longrightarrow>
      snd (callTool env1 w1 ''search_github_repo'' args)
        = snd (callTool env2 w2 ''search_github_repo'' args))"
proof (intro conjI impI)
  assume u: "\<not> registered functionName"
  then have u': "\<not> registered (call_name \<lparr>call_name = functionName, call_args = args\<rparr>)"
    by simp
  show "snd (callTool env1 w1 functionName args) = snd (callTool env2 w2 functionName args)"
    by (simp add: callTool_unknown [OF u])
  show "snd (callTool env1 w1 functionName args) = Inl (Error (''Unknown function: '' @ functionName))"
    by (simp add: callTool_unknown [OF u])
  show "snd (dispatch_call env1 w1 \<lparr>call_name = functionName, call_args = args\<rparr>)
        = snd (dispatch_call env2 w2 \<lparr>call_name = functionName, call_args = args\<rparr>)"
    by (simp add: dispatch_call_unknown [OF u'])
  show "snd (dispatch_call env1 w1 \<lparr>call_name = functionName, call_args = args\<rparr>)
        = Inr (functionName, errorResult (''Unknown function: '' @ functionName))"
    by (simp add: dispatch_call_unknown [OF u'])
next
  assume "fetch env1 (clock w1) (search_url args) = fetch env2 (clock w2) (search_url args)"
  from search_same_cause [OF this]
  show "snd (callTool env1 w1 ''search_github_repo'' args)
        = snd (callTool env2 w2 ''search_github_repo'' args)"
    by (simp add: callTool_search)
qed

theorem failed_dispatch_repeatable_witness:
  "\<not> registered ''launchRocket''
   \<and> fetch text_env (clock initial_world) (search_url [])
       = fetch tool_env (clock (tick initial_world)) (search_url [])
   \<and> snd (callTool text_env initial_world ''launchRocket'' [])
       = snd (callTool tool_env (tick initial_world) ''launchRocket'' [])
   \<and> snd (dispatch_call text_env initial_world \<lparr>call_name = ''launchRocket'', call_args = []\<rparr>)
       = snd (dispatch_call tool_env (tick initial_world) \<lparr>call_name = ''launchRocket'', call_args = []\<rparr>)
   \<and> snd (dispatch_call text_env initial_world \<lparr>call_name = ''launchRocket'', call_args = []\<rparr>)
       = Inr (''launchRocket'', errorResult ''Unknown function: launchRocket'')
   \<and> snd (callTool text_env initial_world ''search_github_repo'' [])
        = snd (callTool tool_env (tick initial_world) ''search_github_repo'' [])"
proof -
  have r: "\<not> registered ''launchRocket''"
    by (simp add: registered_def functionDeclarations_def)
  have f: "fetch text_env (clock initial_world) (search_url [])
       = fetch tool_env (clock (tick initial_world)) (search_url [])"
    by (simp add: text_env_def tool_env_def offline_fetch_def)
  note t = failed_dispatch_repeatable [of "''launchRocket''" text_env initial_world "[]"
      tool_env "tick initial_world"]
  note a = t [THEN conjunct1, rule_format, OF r]
  note b = t [THEN conjunct2, rule_format, OF f]
  have e: "''Unknown function: '' @ ''launchRocket'' = ''Unknown function: launchRocket''"
    by simp
  from r f a [THEN conjunct1] a [THEN conjunct2, THEN conjunct2, THEN conjunct1]
    a [THEN conjunct2, THEN conjunct2, THEN conjunct2, unfolded e] b
  show ?thesis by (intro conjI)
qed

section \<open>The histories sent to the model\<close>

lemma addMessage_requests: "addMessage w p t = (w', r) \<Longrightarrow> requests w' = requests w"
  using addMessage_cases [of w p t] by auto

lemma search_try_requests: "search_try env w url = (w', r) \<Longrightarrow> requests w' = requests w"
  by (auto simp: search_try_def tick_def split: sum.splits if_splits)

lemma callTool_requests: "callTool env w f a = (w', r) \<Longrightarrow> requests w' = requests w"
  by (auto simp: callTool_def getWeather_def getCurrentTime_def search_github_repo_eq tick_def
        Let_def dest: search_try_requests split: if_splits prod.splits sum.splits)

lemma try_call_requests:
  assumes "try_call env w f a = (w', r)"
  shows "requests w' = requests w"
proof -
  obtain w1 out where c: "callTool env w f a = (w1, out)" by (cases "callTool env w f a")
  note r1 = callTool_requests [OF c]
  show ?thesis
  proof (cases out)
    case (Inl e)
    with assms c r1 show ?thesis by (simp add: try_call_def)
  next
    case (Inr v)
    obtain w2 x where m: "addMessage w1 (PResult f v) Tool_result = (w2, x)"
      by (cases "addMessage w1 (PResult f v) Tool_result")
    from assms c Inr m have "w' = w2" by (auto simp: try_call_def split: sum.splits)
    with addMessage_requests [OF m] r1 show ?thesis by simp
  qed
qed

lemma dispatch_call_requests: "dispatch_call env w c = (w', r) \<Longrightarrow> requests w' = requests w"
  by (auto simp: dispatch_call_eq split: prod.splits sum.splits dest: try_call_requests)

lemma run_calls_requests: "run_calls env w cs acc = (w', r) \<Longrightarrow> requests w' = requests w"
proof (induction cs arbitrary: w acc)
  case Nil
  then show ?case by simp
next
  case (Cons c cs)
  obtain w1 x where d: "dispatch_call env w c = (w1, Inr x)"
    using dispatch_call_total by blast
  with Cons.prems have "run_calls env w1 cs (acc @ [x]) = (w', r)" by simp
  from Cons.IH [OF this] dispatch_call_requests [OF d] show ?case by simp
qed

lemma loop_body_requests:
  assumes "loop_body env w history currentResponse calls = (w', history', next)"
  shows "\<exists>toolResponse. history' = history @ [candidate_content currentResponse, toolResponse]
           \<and> requests w' = requests w @ [history']"
proof -
  obtain w1 rs where r: "run_calls env w calls [] = (w1, Inr rs)"
    and b: "loop_body env w history currentResponse calls
          = (tick (w1\<lparr>requests := requests w1
                        @ [history @ [candidate_content currentResponse, tool_turn rs] ]\<rparr>),
             history @ [candidate_content currentResponse, tool_turn rs],
             generateContent env (clock w1)
               (history @ [candidate_content currentResponse, tool_turn rs]))"
    using loop_body_spec by blast
  from run_calls_requests [OF r] b assms show ?thesis by (auto simp: tick_def)
qed


lemma tool_loop_requests_aux:
  assumes "tool_loop env w history currentResponse = Some res"
  shows "\<exists>hs. requests (fst res) = requests w @ hs \<and> append_only history hs
              \<and> last (history # hs) = fst (snd res)"
proof (induction env w history currentResponse res rule: tool_loop.raw_induct)
  case (1 tool_loop' env w history currentResponse res)
  show ?case
  proof (cases "functionCalls currentResponse = None \<or> functionCalls currentResponse = Some []")
    case True
    with 1(2) have "res = (w, history, Inr currentResponse)" by (auto split: option.splits)
    then show ?thesis by simp
  next
    case False
    then obtain calls where c: "functionCalls currentResponse = Some calls" "calls \<noteq> []"
      by auto
    obtain w1 h1 nxt where b: "loop_body env w history currentResponse calls = (w1, h1, nxt)"
      by (cases "loop_body env w history currentResponse calls") auto
    from loop_body_requests [OF b] obtain toolResponse
      where h1: "h1 = history @ [candidate_content currentResponse, toolResponse]"
        and r1: "requests w1 = requests w @ [h1]" by blast
    show ?thesis
    proof (cases nxt)
      case (Inl e)
      with 1(2) c b have "res = (w1, h1, Inl e)" by auto
      with h1 r1 have "requests (fst res) = requests w @ [h1] \<and> append_only history [h1]
          \<and> last (history # [h1]) = fst (snd res)" by simp
      then show ?thesis by blast
    next
      case (Inr r)
      with 1(2) c b have "tool_loop' env w1 h1 r = Some res" by auto
      from 1(1) [OF this] obtain hs where "requests (fst res) = requests w1 @ hs"
        and "append_only h1 hs" and "last (h1 # hs) = fst (snd res)" by blast
      with h1 r1 have "requests (fst res) = requests w @ (h1 # hs)
          \<and> append_only history (h1 # hs)
          \<and> last (history # h1 # hs) = fst (snd res)" by simp
      then show ?thesis by blast
    qed
  qed
qed (rule assms)

lemma tool_loop_requests:
  assumes "tool_loop env w history currentResponse = Some (w', history', out)"
  shows "\<exists>hs. requests w' = requests w @ hs \<and> append_only history hs
              \<and> last (history # hs) = history'"
  using tool_loop_requests_aux [OF assms] by simp

lemma append_only_last: "append_only h hs \<Longrightarrow> prefix h (last (h # hs))"
proof (induction hs arbitrary: h)
  case Nil
  then show ?case by simp
next
  case (Cons x xs)
  then have "prefix h x" and "prefix x (last (x # xs))" by simp_all
  then have "prefix h (last (x # xs))" by (rule prefix_order.trans)
  then show ?case by simp
qed

lemma run_request_eq:
  "run_request env w prompt =
     (case generateContent env (clock w) [user_turn prompt] of
        Inl e \<Rightarrow>
          Some (tick (w\<lparr>requests := requests w @ [ [user_turn prompt] ]\<rparr>), [user_turn prompt], Inl e)
      | Inr currentResponse \<Rightarrow>
          (case tool_loop env (tick (w\<lparr>requests := requests w @ [ [user_turn prompt] ]\<rparr>))
                  [user_turn prompt] currentResponse of
             None \<Rightarrow> None
           | Some (w2, history', Inl e) \<Rightarrow> Some (w2, history', Inl e)
           | Some (w2, history', Inr final) \<Rightarrow>
               Some (w2\<lparr>messages := messages w2 @ [(Model, PText (response_text final))]\<rparr>,
                     history', Inr ())))"
  by (simp add: run_request_def call_model_def user_turn_def Let_def addMessage_text
        split: sum.split option.split prod.split)

lemma run_request_requests:
  assumes "run_request env w prompt = Some (w', history', out)"
  shows "\<exists>hs. requests w' = requests w @ ([user_turn prompt] # hs)
            \<and> append_only [user_turn prompt] hs
            \<and> last ([user_turn prompt] # hs) = history'"
proof -
  let ?h = "[user_turn prompt]"
  let ?w1 = "tick (w\<lparr>requests := requests w @ [?h]\<rparr>)"
  have r1: "requests ?w1 = requests w @ [?h]" by (simp add: tick_def)
  show ?thesis
  proof (cases "generateContent env (clock w) ?h")
    case (Inl e)
    with assms have "w' = ?w1" "history' = ?h"
      by (auto simp: run_request_eq)
    with r1 have "requests w' = requests w @ (?h # []) \<and> append_only ?h []
        \<and> last (?h # []) = history'" by simp
    then show ?thesis by blast
  next
    case (Inr currentResponse)
    with assms obtain w2 out2 where t: "tool_loop env ?w1 ?h currentResponse = Some (w2, history', out2)"
      and w': "requests w' = requests w2"
      by (auto simp: run_request_eq split: option.splits sum.splits prod.splits)
    from tool_loop_requests [OF t] obtain hs where "requests w2 = requests ?w1 @ hs"
      and "append_only ?h hs" and "last (?h # hs) = history'" by blast
    with r1 w' have "requests w' = requests w @ (?h # hs) \<and> append_only ?h hs
        \<and> last (?h # hs) = history'" by simp
    then show ?thesis by blast
  qed
qed

lemma handleFormSubmit_requests:
  assumes "handleFormSubmit env w v = Some (w', r)" and "trim v \<noteq> []"
  shows "\<exists>hs. requests w' = requests w @ ([user_turn (trim v)] # hs)
            \<and> append_only [user_turn (trim v)] hs"
proof -
  let ?w1 = "(setLoading True w)\<lparr>messages := messages (setLoading True w) @ [(User, PText (Some (trim v)))]\<rparr>"
  have r0: "requests ?w1 = requests w" by (simp add: setLoading_def)
  from assms obtain w2 h2 out2 where rr: "run_request env ?w1 (trim v) = Some (w2, h2, out2)"
    and w': "requests w' = requests w2"
    by (auto simp: handleFormSubmit_def Let_def addMessage_text setLoading_def
          split: option.splits sum.splits prod.splits)
  from run_request_requests [OF rr] r0 w' show ?thesis by auto
qed

section \<open>Responses without tool calls\<close>




section \<open>The history of a request and of a session\<close>

text \<open>
  Claim C4, as stated, fails: the history is a local of \<open>handleFormSubmit\<close>, made
  anew from the prompt at every submission. In a session of two submissions, the
  model call of the second is sent the second user turn alone.
\<close>

theorem earlier_turns_not_sent:
  "map_option requests
     (session text_env initial_world [''My name is Ada.'', ''What is my name?''])
   = Some [ [user_turn ''My name is Ada.''], [user_turn ''What is my name?''] ]"
  by code_simp

text \<open>
  Claim C4, amended. Each submission owns one history, which lives as long as the
  submission is handled and starts as its prompt's user turn alone, whatever was
  sent before. Every model call of the submission is sent that history as it then
  is: every loop iteration sends the history it has just extended, so that the first
  call gets the user turn alone and each later call an extension of the context of
  the call before it. Turns of earlier submissions are not in it.
\<close>

theorem each_request_has_own_history:
  "(\<exists>w1 h1 nxt. loop_body env w0 history currentResponse calls = (w1, h1, nxt)
        \<and> prefix history h1 \<and> requests w1 = requests w0 @ [h1])
   \<and> (handleFormSubmit env w input_value = Some (w', r) \<and> trim input_value \<noteq> [] \<longrightarrow>
        (\<exists>hs. requests w' = requests w @ ([user_turn (trim input_value)] # hs)
            \<and> append_only [user_turn (trim input_value)] hs))"
proof (intro conjI impI)
  obtain w1 h1 nxt where b: "loop_body env w0 history currentResponse calls = (w1, h1, nxt)"
    by (cases "loop_body env w0 history currentResponse calls") auto
  from loop_body_requests [OF b] have "prefix history h1" and "requests w1 = requests w0 @ [h1]"
    by auto
  with b show "\<exists>w1 h1 nxt. loop_body env w0 history currentResponse calls = (w1, h1, nxt)
        \<and> prefix history h1 \<and> requests w1 = requests w0 @ [h1]"
    by blast
next
  assume "handleFormSubmit env w input_value = Some (w', r) \<and> trim input_value \<noteq> []"
  then have "handleFormSubmit env w input_value = Some (w', r)" and "trim input_value \<noteq> []"
    by simp_all
  then show "\<exists>hs. requests w' = requests w @ ([user_turn (trim input_value)] # hs)
            \<and> append_only [user_turn (trim input_value)] hs"
    by (rule handleFormSubmit_requests)
qed

theorem each_request_has_own_history_witness:
  "trim ''weather?'' \<noteq> []
   \<and> (\<exists>w' r hs. handleFormSubmit tool_env initial_world ''weather?'' = Some (w', r)
         \<and> requests w' = requests initial_world @ ([user_turn (trim ''weather?'')] # hs)
         \<and> append_only [user_turn (trim ''weather?'')] hs)"
proof -
  have t: "trim ''weather?'' \<noteq> []"
    by (simp add: trim_def is_white_space_def)
  have "handleFormSubmit tool_env initial_world ''weather?'' \<noteq> None"
    by code_simp
  then obtain w' r where h: "handleFormSubmit tool_env initial_world ''weather?'' = Some (w', r)"
    by auto
  from each_request_has_own_history [THEN conjunct2, rule_format, OF conjI [OF h t] ] h t
  show ?thesis by blast
qed

text \<open>
  Claim C5, as stated, fails across a session: over the loop iterations of two
  submissions the number of turns sent goes 1, 3, 1, 3, and the histories sent do
  not extend one another.
\<close>

theorem history_restarts_in_session:
  "map_option (map length \<circ> requests) (session tool_env initial_world [''a'', ''b''])
     = Some [1, 3, 1, 3]
   \<and> map_option (append_only [] \<circ> requests) (session tool_env initial_world [''a'', ''b''])
     = Some False"
  by code_simp

text \<open>
  Claim C5, amended. Within one submission the history is append-only: every loop
  iteration leaves the history it found with exactly two turns added at its end;
  the history the loop ends with extends the one it started with; and the contexts
  sent to the model during the submission, in order, each extend the one before,
  the last of them being the final history. No turn is changed or removed.
\<close>

theorem history_append_only_within_request:
  "(\<exists>w1 a b nxt. loop_body env w history currentResponse calls = (w1, history @ [a, b], nxt))
   \<and> (tool_loop env w history currentResponse = Some (w', history', out) \<longrightarrow>
        prefix history history'
        \<and> (\<exists>hs. requests w' = requests w @ hs \<and> append_only history hs
                 \<and> last (history # hs) = history'))
   \<and> (run_request env w prompt = Some (w'', history'', out') \<longrightarrow>
        prefix [user_turn prompt] history''
        \<and> (\<exists>hs. requests w'' = requests w @ ([user_turn prompt] # hs)
                 \<and> append_only [user_turn prompt] hs
                 \<and> last ([user_turn prompt] # hs) = history''))"
proof (intro conjI impI)
  from loop_body_spec [of env w calls history currentResponse]
  show "\<exists>w1 a b nxt. loop_body env w history currentResponse calls = (w1, history @ [a, b], nxt)"
    by blast
next
  assume t: "tool_loop env w history currentResponse = Some (w', history', out)"
  from tool_loop_requests [OF t] obtain hs where hs: "requests w' = requests w @ hs"
    "append_only history hs" "last (history # hs) = history'" by blast
  from append_only_last [OF hs(2)] hs(3) show "prefix history history'" by simp
  from hs show "\<exists>hs. requests w' = requests w @ hs \<and> append_only history hs
                 \<and> last (history # hs) = history'" by blast
next
  assume t: "run_request env w prompt = Some (w'', history'', out')"
  from run_request_requests [OF t] obtain hs
    where hs: "requests w'' = requests w @ ([user_turn prompt] # hs)"
    "append_only [user_turn prompt] hs" "last ([user_turn prompt] # hs) = history''" by blast
  from append_only_last [OF hs(2)] hs(3) show "prefix [user_turn prompt] history''" by simp
  from hs show "\<exists>hs. requests w'' = requests w @ ([user_turn prompt] # hs)
                 \<and> append_only [user_turn prompt] hs
                 \<and> last ([user_turn prompt] # hs) = history''" by blast
qed

theorem history_append_only_within_request_witness:
  "(\<exists>w' history' out.
      tool_loop tool_env initial_world [user_turn ''a''] (calls_response demo_calls)
        = Some (w', history', out)
      \<and> prefix [user_turn ''a''] history'
      \<and> (\<exists>hs. requests w' = requests initial_world @ hs \<and> append_only [user_turn ''a''] hs
               \<and> last ([user_turn ''a''] # hs) = history'))
   \<and> (\<exists>w'' history'' out'.
      run_request tool_env initial_world ''a'' = Some (w'', history'', out')
      \<and> prefix [user_turn ''a''] history''
      \<and> (\<exists>hs. requests w'' = requests initial_world @ ([user_turn ''a''] # hs)
               \<and> append_only [user_turn ''a''] hs
               \<and> last ([user_turn ''a''] # hs) = history''))"
proof -
  have "tool_loop tool_env initial_world [user_turn ''a''] (calls_response demo_calls) \<noteq> None"
    by code_simp
  then obtain w' history' out
    where t: "tool_loop tool_env initial_world [user_turn ''a''] (calls_response demo_calls)
                = Some (w', history', out)"
    by auto
  have "run_request tool_env initial_world ''a'' \<noteq> None"
    by code_simp
  then obtain w'' history'' out'
    where r: "run_request tool_env initial_world ''a'' = Some (w'', history'', out')"
    by auto
  note th = history_append_only_within_request [of tool_env initial_world "[user_turn ''a'']"
      "calls_response demo_calls" _ w' history' out "''a''" w'' history'' out']
  from th [THEN conjunct2, THEN conjunct1, rule_format, OF t] t
  have a: "\<exists>w' history' out.
      tool_loop tool_env initial_world [user_turn ''a''] (calls_response demo_calls)
        = Some (w', history', out)
      \<and> prefix [user_turn ''a''] history'
      \<and> (\<exists>hs. requests w' = requests initial_world @ hs \<and> append_only [user_turn ''a''] hs
               \<and> last ([user_turn ''a''] # hs) = history')"
    by blast
  from th [THEN conjunct2, THEN conjunct2, rule_format, OF r] r
  have b: "\<exists>w'' history'' out'.
      run_request tool_env initial_world ''a'' = Some (w'', history'', out')
      \<and> prefix [user_turn ''a''] history''
      \<and> (\<exists>hs. requests w'' = requests initial_world @ ([user_turn ''a''] # hs)
               \<and> append_only [user_turn ''a''] hs
               \<and> last ([user_turn ''a''] # hs) = history'')"
    by blast
  from a b show ?thesis by (rule conjI)
qed

end
